theory Spec2Isabelle
  imports Main "HOL-Library.Word" "HOL-Library.Sublist"
begin

section \<open>Python strings\<close>

text \<open>
  A Python \<open>str\<close> is modelled as a \<open>string\<close>; a character stands for a code point
  below 256. The helpers below are the \<open>str\<close> methods that \<open>data_converter.py\<close>
  calls: \<open>rstrip\<close>, \<open>split\<close> and \<open>join\<close>.
\<close>

definition newline :: char where
  "newline = CHR 0x0A"

text \<open>
  \<open>str.isspace\<close> on the code points below 256: tab, line feed, vertical tab, form
  feed, carriage return, the four separators 0x1C to 0x1F, space, NEL and the
  no-break space.
\<close>

definition is_space :: "char \<Rightarrow> bool" where
  "is_space c = (c \<in> set [CHR 0x09, CHR 0x0A, CHR 0x0B, CHR 0x0C, CHR 0x0D,
     CHR 0x1C, CHR 0x1D, CHR 0x1E, CHR 0x1F, CHR 0x20, CHR 0x85, CHR 0xA0])"

text \<open>\<open>s.rstrip(chars)\<close>: drop the longest suffix made of characters accepted by \<open>p\<close>.\<close>

definition rstrip_with :: "(char \<Rightarrow> bool) \<Rightarrow> string \<Rightarrow> string" where
  "rstrip_with p s = rev (dropWhile p (rev s))"

text \<open>\<open>s.rstrip()\<close> strips trailing whitespace; \<open>s.rstrip("\n")\<close> strips trailing line feeds.\<close>

definition rstrip :: "string \<Rightarrow> string" where
  "rstrip s = rstrip_with is_space s"

definition rstrip_newlines :: "string \<Rightarrow> string" where
  "rstrip_newlines s = rstrip_with (\<lambda>c. c = newline) s"

text \<open>
  \<open>s.split(sep)\<close> for a one-character separator: the result always has at least one
  part, and \<open>n\<close> occurrences of the separator give \<open>n + 1\<close> parts.
\<close>

fun split_on :: "char \<Rightarrow> string \<Rightarrow> string list" where
  "split_on sep [] = [[]]"
| "split_on sep (c # cs) =
     (if c = sep then [] # split_on sep cs
      else (case split_on sep cs of
              [] \<Rightarrow> [[c]]
            | l # ls \<Rightarrow> (c # l) # ls))"

text \<open>\<open>sep.join(parts)\<close>.\<close>

fun join_with :: "string \<Rightarrow> string list \<Rightarrow> string" where
  "join_with sep [] = []"
| "join_with sep [x] = x"
| "join_with sep (x # y # ys) = x @ sep @ join_with sep (y # ys)"

section \<open>Exceptions\<close>

text \<open>
  Every \<open>raise\<close> of the source and every exception a library call may throw is a value.
  \<open>ValueError\<close> is what \<open>parse_mode\<close>, \<open>load_data\<close> and \<open>convert_data\<close> raise themselves;
  \<open>YAMLError\<close> stands for \<open>yaml.YAMLError\<close> and its subclasses, the only class the
  source catches; \<open>OtherError cls msg\<close> is an exception of any other class.
\<close>

datatype exn =
    ValueError string
  | YAMLError string
  | OtherError string string

section \<open>The mode resolver: \<open>parse_mode\<close>\<close>

definition MODE_SEPARATOR :: char where
  "MODE_SEPARATOR = CHR ''2''"

definition EXPECTED_PARTS :: nat where
  "EXPECTED_PARTS = 2"

definition supported_formats :: "string list" where
  "supported_formats = [''xml'', ''json'', ''yaml'']"

text \<open>The four messages of \<open>parse_mode\<close>, as its f-strings build them.\<close>

definition msg_no_separator :: "string \<Rightarrow> string" where
  "msg_no_separator mode =
     ''Invalid mode format: '' @ mode @ ''. Expected format: 'from2to' (e.g., 'xml2json')''"

definition msg_separator_count :: "string \<Rightarrow> string" where
  "msg_separator_count mode =
     ''Invalid mode format: '' @ mode @ ''. Expected exactly one ''
       @ [CHR 0x27, MODE_SEPARATOR, CHR 0x27] @ '' separator''"

definition msg_unsupported_source :: "string \<Rightarrow> string" where
  "msg_unsupported_source from_fmt =
     ''Unsupported source format: '' @ from_fmt @ ''. Supported: ''
       @ join_with '', '' supported_formats"

definition msg_unsupported_target :: "string \<Rightarrow> string" where
  "msg_unsupported_target to_fmt =
     ''Unsupported target format: '' @ to_fmt @ ''. Supported: ''
       @ join_with '', '' supported_formats"

definition msg_same_format :: "string \<Rightarrow> string" where
  "msg_same_format from_fmt = ''Source and target formats are the same: '' @ from_fmt"

text \<open>
  \<open>parse_mode\<close> follows the source check by check. After the length test the list has
  exactly two parts, so the unpacking \<open>from_fmt, to_fmt = parts\<close> cannot fail; the last
  case of the \<open>case\<close> is what Python's unpacking would raise.
\<close>

definition parse_mode :: "string \<Rightarrow> exn + (string \<times> string)" where
  "parse_mode mode =
     (if MODE_SEPARATOR \<notin> set mode then Inl (ValueError (msg_no_separator mode))
      else
        let parts = split_on MODE_SEPARATOR mode in
        if length parts \<noteq> EXPECTED_PARTS then Inl (ValueError (msg_separator_count mode))
        else
          (case parts of
             [from_fmt, to_fmt] \<Rightarrow>
               if from_fmt \<notin> set supported_formats
                 then Inl (ValueError (msg_unsupported_source from_fmt))
               else if to_fmt \<notin> set supported_formats
                 then Inl (ValueError (msg_unsupported_target to_fmt))
               else if from_fmt = to_fmt
                 then Inl (ValueError (msg_same_format from_fmt))
               else Inr (from_fmt, to_fmt)
           | _ \<Rightarrow> Inl (ValueError ''not enough values to unpack'')))"

section \<open>Python values\<close>

text \<open>
  The values the readers produce and the writers consume. A \<open>dict\<close> is its list of
  items in insertion order (the keys of a Python \<open>dict\<close> are pairwise distinct);
  \<open>OrderedDict\<close> is kept apart from the plain \<open>dict\<close> because the source tests for it.
  A \<open>float\<close> is carried as its 64-bit pattern: the converter never computes with it.
  \<open>PObject\<close> is any other object (a tuple, a set, a date, an instance built by the
  extended YAML loader), named by its \<open>repr\<close>.
\<close>

datatype pyval =
    PNone
  | PBool bool
  | PInt int
  | PFloat "64 word"
  | PStr string
  | PList "pyval list"
  | PDict "(string \<times> pyval) list"
  | POrderedDict "(string \<times> pyval) list"
  | PObject string

text \<open>
  Equality in the model is structural. It is finer than Python's \<open>==\<close>, which ignores
  the order of the items of a plain dict; two values that differ in a string differ
  for both.

  Building a dict item by item: \<open>d[key] = v\<close> replaces the value of a key that is
  present, in its place, and appends a new key.
\<close>

fun dict_set :: "(string \<times> 'v) list \<Rightarrow> string \<Rightarrow> 'v \<Rightarrow> (string \<times> 'v) list" where
  "dict_set [] key v = [(key, v)]"
| "dict_set ((k, w) # rest) key v =
     (if k = key then (k, v) # rest else (k, w) # dict_set rest key v)"

definition dict_of_items :: "(string \<times> 'v) list \<Rightarrow> (string \<times> 'v) list" where
  "dict_of_items items = foldl (\<lambda>d (key, v). dict_set d key v) [] items"

section \<open>The block-format pre-pass: \<open>clean_data_for_yaml\<close>\<close>

text \<open>
  The string branch of \<open>clean_data_for_yaml\<close>:
  \<^verbatim>\<open>lines = data.rstrip("\n").split("\n")\<close>,
  \<^verbatim>\<open>cleaned_lines = [line.rstrip() for line in lines]\<close>,
  \<^verbatim>\<open>return "\n".join(cleaned_lines).rstrip()\<close>.
\<close>

definition clean_str :: "string \<Rightarrow> string" where
  "clean_str data =
     (let lines = split_on newline (rstrip_newlines data);
          cleaned_lines = map rstrip lines
      in rstrip (join_with [newline] cleaned_lines))"

text \<open>
  The \<open>isinstance\<close> tests in the order of the source: \<open>OrderedDict\<close> or \<open>dict\<close>, then
  \<open>list\<close>, then \<open>str\<close>, and any other value is returned as it is. The dict
  comprehension visits the items in order and inserts each key with its cleaned value;
  the keys of a dict being distinct, the new dict is the list of items with each value
  cleaned (lemma \<open>dict_comprehension\<close> below).
\<close>

fun clean_data_for_yaml :: "pyval \<Rightarrow> pyval" where
  "clean_data_for_yaml (POrderedDict items) =
     PDict (map (\<lambda>(key, v). (key, clean_data_for_yaml v)) items)"
| "clean_data_for_yaml (PDict items) =
     PDict (map (\<lambda>(key, v). (key, clean_data_for_yaml v)) items)"
| "clean_data_for_yaml (PList xs) = PList (map clean_data_for_yaml xs)"
| "clean_data_for_yaml (PStr s) = PStr (clean_str s)"
| "clean_data_for_yaml data = data"

section \<open>The pre-pass on objects in a store\<close>

text \<open>
  Python passes references: a list or a dict holds its elements by reference and can
  be changed in place. To state what the pre-pass leaves untouched, the objects that
  have an identity of their own live in a store, a list of objects addressed by
  position, and creating an object appends it. What a variable, a list slot or a dict
  value holds is a cell: an immutable value (\<open>None\<close>, a boolean, a number, a string),
  carried as it is since nothing can change it in place, or a reference into the
  store. The objects of the store are lists, the two kinds of dict and any other
  object.
\<close>

type_synonym ref = nat

datatype cell =
    CNone
  | CBool bool
  | CInt int
  | CFloat "64 word"
  | CStr string
  | CRef ref

datatype obj =
    OList "cell list"
  | ODict "(string \<times> cell) list"
  | OOrderedDict "(string \<times> cell) list"
  | OObject string

type_synonym store = "obj list"

text \<open>
  \<open>clean_cell d s c\<close> is \<open>clean_data_for_yaml\<close> called on the cell \<open>c\<close> in the store \<open>s\<close>,
  with at most \<open>d\<close> nested calls (Python's recursion limit): it returns the store after
  the call and the cell it returns, or \<open>None\<close> for a \<open>RecursionError\<close> or a dangling
  reference. A comprehension creates a new dict or list, the \<open>str\<close> methods give a
  string, and any other object is returned as it is, by reference. No branch assigns
  to an object that exists.
\<close>

fun clean_cell :: "nat \<Rightarrow> store \<Rightarrow> cell \<Rightarrow> (store \<times> cell) option"
  and clean_cells :: "nat \<Rightarrow> store \<Rightarrow> cell list \<Rightarrow> (store \<times> cell list) option" where
  "clean_cell 0 s c = None"
| "clean_cell (Suc d) s (CRef r) =
     (if length s \<le> r then None
      else
        (case s ! r of
           OOrderedDict items \<Rightarrow>
             (case clean_cells d s (map snd items) of
                None \<Rightarrow> None
              | Some (s', cs) \<Rightarrow>
                  Some (s' @ [ODict (zip (map fst items) cs)], CRef (length s')))
         | ODict items \<Rightarrow>
             (case clean_cells d s (map snd items) of
                None \<Rightarrow> None
              | Some (s', cs) \<Rightarrow>
                  Some (s' @ [ODict (zip (map fst items) cs)], CRef (length s')))
         | OList xs \<Rightarrow>
             (case clean_cells d s xs of
                None \<Rightarrow> None
              | Some (s', cs) \<Rightarrow> Some (s' @ [OList cs], CRef (length s')))
         | OObject repr \<Rightarrow> Some (s, CRef r)))"
| "clean_cell (Suc d) s (CStr str) = Some (s, CStr (clean_str str))"
| "clean_cell (Suc d) s c = Some (s, c)"
| "clean_cells d s [] = Some (s, [])"
| "clean_cells d s (c # cs) =
     (case clean_cell d s c of
        None \<Rightarrow> None
      | Some (s1, c') \<Rightarrow>
          (case clean_cells d s1 cs of
             None \<Rightarrow> None
           | Some (s2, cs') \<Rightarrow> Some (s2, c' # cs')))"

text \<open>The value a cell stands for, read through the references to depth \<open>n\<close>.\<close>

fun denote :: "nat \<Rightarrow> store \<Rightarrow> cell \<Rightarrow> pyval option"
  and denotes :: "nat \<Rightarrow> store \<Rightarrow> cell list \<Rightarrow> pyval list option" where
  "denote 0 s c = None"
| "denote (Suc n) s CNone = Some PNone"
| "denote (Suc n) s (CBool b) = Some (PBool b)"
| "denote (Suc n) s (CInt i) = Some (PInt i)"
| "denote (Suc n) s (CFloat f) = Some (PFloat f)"
| "denote (Suc n) s (CStr str) = Some (PStr str)"
| "denote (Suc n) s (CRef r) =
     (if length s \<le> r then None
      else
        (case s ! r of
           OList xs \<Rightarrow> map_option PList (denotes n s xs)
         | ODict items \<Rightarrow>
             map_option (\<lambda>vs. PDict (zip (map fst items) vs)) (denotes n s (map snd items))
         | OOrderedDict items \<Rightarrow>
             map_option (\<lambda>vs. POrderedDict (zip (map fst items) vs))
               (denotes n s (map snd items))
         | OObject repr \<Rightarrow> Some (PObject repr)))"
| "denotes n s [] = Some []"
| "denotes n s (c # cs) =
     (case denote n s c of
        None \<Rightarrow> None
      | Some v \<Rightarrow> map_option ((#) v) (denotes n s cs))"

text \<open>
  The objects the pre-pass builds anew are the containers: lists and both kinds of
  dict. A cell refers to a container; a cell is a string; a cell is a reference to an
  object that the store does not hold yet.
\<close>

fun is_container :: "obj \<Rightarrow> bool" where
  "is_container (OObject repr) = False"
| "is_container other = True"

fun refers_to_container :: "store \<Rightarrow> cell \<Rightarrow> bool" where
  "refers_to_container s (CRef r) = (r < length s \<and> is_container (s ! r))"
| "refers_to_container s c = False"

fun is_string_cell :: "cell \<Rightarrow> bool" where
  "is_string_cell (CStr str) = True"
| "is_string_cell c = False"

fun is_fresh_ref :: "store \<Rightarrow> cell \<Rightarrow> bool" where
  "is_fresh_ref s (CRef r) = (length s \<le> r)"
| "is_fresh_ref s c = False"

section \<open>The format libraries\<close>

text \<open>
  \<open>xmltodict\<close>, \<open>json\<close> and \<open>yaml\<close> are third-party code, not part of the repository.
  They are parameters of the model: a record with one field for each library function
  the source calls, each returning its result or the exception it raises.
  \<open>json_dumps L data n\<close> is \<open>json.dumps(data, indent=n)\<close>; \<open>yaml_load L content\<close> is
  \<open>yaml.load(content, Loader=yaml.Loader)\<close>; \<open>yaml_dump L data\<close> is \<open>yaml.dump(data)\<close>
  with no further argument.
\<close>

record libs =
  xml_parse :: "string \<Rightarrow> exn + pyval"
  xml_unparse :: "pyval \<Rightarrow> exn + string"
  json_loads :: "string \<Rightarrow> exn + pyval"
  json_dumps :: "pyval \<Rightarrow> nat \<Rightarrow> exn + string"
  yaml_safe_load :: "string \<Rightarrow> exn + pyval"
  yaml_load :: "string \<Rightarrow> exn + pyval"
  yaml_dump :: "pyval \<Rightarrow> exn + string"

section \<open>The readers: \<open>load_data\<close>\<close>

text \<open>
  \<open>load_data_traced\<close> is \<open>load_data\<close> together with the list of parser calls it makes, in
  order. In the YAML branch the \<open>except yaml.YAMLError\<close> clause catches that class only:
  any other exception of \<open>yaml.safe_load\<close> leaves \<open>load_data\<close> as it is.
\<close>

datatype parser_call = XmlParse | JsonLoads | YamlSafeLoad | YamlLoad

definition load_data_traced :: "libs \<Rightarrow> string \<Rightarrow> string \<Rightarrow> parser_call list \<times> (exn + pyval)" where
  "load_data_traced L content from_fmt =
     (if from_fmt = ''xml'' then ([XmlParse], xml_parse L content)
      else if from_fmt = ''json'' then ([JsonLoads], json_loads L content)
      else if from_fmt = ''yaml'' then
        (case yaml_safe_load L content of
           Inr data \<Rightarrow> ([YamlSafeLoad], Inr data)
         | Inl (YAMLError detail) \<Rightarrow> ([YamlSafeLoad, YamlLoad], yaml_load L content)
         | Inl e \<Rightarrow> ([YamlSafeLoad], Inl e))
      else ([], Inl (ValueError (''Unexpected source format: '' @ from_fmt))))"

definition load_data :: "libs \<Rightarrow> string \<Rightarrow> string \<Rightarrow> exn + pyval" where
  "load_data L content from_fmt = snd (load_data_traced L content from_fmt)"

section \<open>The writers: \<open>convert_data\<close>\<close>

definition convert_data :: "libs \<Rightarrow> pyval \<Rightarrow> string \<Rightarrow> exn + string" where
  "convert_data L data to_fmt =
     (if to_fmt = ''xml'' then xml_unparse L data
      else if to_fmt = ''json'' then json_dumps L data 2
      else if to_fmt = ''yaml'' then yaml_dump L (clean_data_for_yaml data)
      else Inl (ValueError (''Unexpected target format: '' @ to_fmt)))"

section \<open>The pipeline: \<open>sub_main\<close>\<close>

text \<open>
  \<open>sub_main\<close> without its file access: \<open>content\<close> is what \<open>read_input_file\<close> returned,
  and the result is the string handed to \<open>write_output\<close>.
\<close>

definition sub_main :: "libs \<Rightarrow> string \<Rightarrow> string \<Rightarrow> exn + string" where
  "sub_main L content mode =
     (case parse_mode mode of
        Inl e \<Rightarrow> Inl e
      | Inr (from_fmt, to_fmt) \<Rightarrow>
          (case load_data L content from_fmt of
             Inl e \<Rightarrow> Inl e
           | Inr data \<Rightarrow> convert_data L data to_fmt))"

section \<open>Properties of strings and values\<close>

text \<open>
  A string has no trailing space when it is empty or ends in a character that is not
  whitespace. It is normalised when this holds of the whole string and of each of its
  lines. A value is block-clean when it has no \<open>OrderedDict\<close> node and every string
  node in it (in a value position: under a dict key or in a list) is normalised.
  A value is canonical when it is built from dicts with distinct keys, lists, strings,
  numbers, booleans and \<open>None\<close> only.
\<close>

definition no_trailing_space :: "string \<Rightarrow> bool" where
  "no_trailing_space s = (s = [] \<or> \<not> is_space (last s))"

definition normalised :: "string \<Rightarrow> bool" where
  "normalised s = (no_trailing_space s \<and> list_all no_trailing_space (split_on newline s))"

fun block_clean :: "pyval \<Rightarrow> bool" where
  "block_clean (POrderedDict items) = False"
| "block_clean (PDict items) = list_all (\<lambda>(key, v). block_clean v) items"
| "block_clean (PList xs) = list_all block_clean xs"
| "block_clean (PStr s) = normalised s"
| "block_clean data = True"

fun canonical :: "pyval \<Rightarrow> bool" where
  "canonical (PDict items) = (distinct (map fst items) \<and> list_all (\<lambda>(key, v). canonical v) items)"
| "canonical (PList xs) = list_all canonical xs"
| "canonical (POrderedDict items) = False"
| "canonical (PObject r) = False"
| "canonical data = True"

text \<open>The keys of a mapping, in order.\<close>

fun dict_keys :: "pyval \<Rightarrow> string list" where
  "dict_keys (PDict items) = map fst items"
| "dict_keys (POrderedDict items) = map fst items"
| "dict_keys data = []"

text \<open>All the keys of a value, at every depth, in the order of a traversal.\<close>

fun all_keys :: "pyval \<Rightarrow> string list" where
  "all_keys (PDict items) = concat (map (\<lambda>(key, v). key # all_keys v) items)"
| "all_keys (POrderedDict items) = concat (map (\<lambda>(key, v). key # all_keys v) items)"
| "all_keys (PList xs) = concat (map all_keys xs)"
| "all_keys data = []"

text \<open>
  What the claim says of the string branch, stated without the three strip steps of
  the source: every line loses its trailing whitespace, the lines left empty at the
  end are dropped, and the rest is joined again, line by line.
\<close>

definition drop_trailing_blank :: "string list \<Rightarrow> string list" where
  "drop_trailing_blank ls = rev (dropWhile (\<lambda>l. l = []) (rev ls))"

definition strip_lines_spec :: "string \<Rightarrow> string" where
  "strip_lines_spec s =
     join_with [newline] (drop_trailing_blank (map rstrip (split_on newline s)))"

text \<open>The string nodes of a value, at every depth, in the order of a traversal.\<close>

fun strings_of :: "pyval \<Rightarrow> string list" where
  "strings_of (PStr s) = [s]"
| "strings_of (PList xs) = concat (map strings_of xs)"
| "strings_of (PDict items) = concat (map (\<lambda>(key, v). strings_of v) items)"
| "strings_of (POrderedDict items) = concat (map (\<lambda>(key, v). strings_of v) items)"
| "strings_of data = []"

text \<open>
  The shape of a value: every string node emptied and every ordered map made a plain
  mapping, all else kept.
\<close>

fun skeleton :: "pyval \<Rightarrow> pyval" where
  "skeleton (PStr s) = PStr []"
| "skeleton (PList xs) = PList (map skeleton xs)"
| "skeleton (PDict items) = PDict (map (\<lambda>(key, v). (key, skeleton v)) items)"
| "skeleton (POrderedDict items) = PDict (map (\<lambda>(key, v). (key, skeleton v)) items)"
| "skeleton data = data"

section \<open>Round trips\<close>

text \<open>
  \<open>write_then_read\<close> writes a value in a format and reads the text back in the same
  format. \<open>lib_reads_back L fmt x r\<close> says that the library of the format serializes
  \<open>x\<close> and parses the text it produced to \<open>r\<close>. \<open>json_yaml_json\<close> runs the directive
  \<open>json2yaml\<close> on a text, \<open>yaml2json\<close> on the result, and parses the final text.
\<close>

definition write_then_read :: "libs \<Rightarrow> string \<Rightarrow> pyval \<Rightarrow> exn + pyval" where
  "write_then_read L fmt v =
     (case convert_data L v fmt of
        Inl e \<Rightarrow> Inl e
      | Inr text \<Rightarrow> load_data L text fmt)"

definition lib_reads_back :: "libs \<Rightarrow> string \<Rightarrow> pyval \<Rightarrow> pyval \<Rightarrow> bool" where
  "lib_reads_back L fmt x r =
     (if fmt = ''xml'' then
        (case xml_unparse L x of Inr text \<Rightarrow> xml_parse L text = Inr r | Inl e \<Rightarrow> False)
      else if fmt = ''json'' then
        (case json_dumps L x 2 of Inr text \<Rightarrow> json_loads L text = Inr r | Inl e \<Rightarrow> False)
      else if fmt = ''yaml'' then
        (case yaml_dump L x of Inr text \<Rightarrow> yaml_safe_load L text = Inr r | Inl e \<Rightarrow> False)
      else False)"

definition json_yaml_json :: "libs \<Rightarrow> string \<Rightarrow> exn + pyval" where
  "json_yaml_json L text =
     (case sub_main L text ''json2yaml'' of
        Inl e \<Rightarrow> Inl e
      | Inr block \<Rightarrow>
          (case sub_main L block ''yaml2json'' of
             Inl e \<Rightarrow> Inl e
           | Inr object \<Rightarrow> load_data L object ''json''))"

text \<open>
  The outcome of a library call is a \<open>yaml.YAMLError\<close>. A value is a scalar when it
  is neither a mapping nor a sequence: \<open>None\<close>, a boolean, a number, a string, or
  another object, such as the date that a YAML scalar can parse to. A value is a string.
\<close>

fun raises_YAMLError :: "exn + 'a \<Rightarrow> bool" where
  "raises_YAMLError (Inl (YAMLError detail)) = True"
| "raises_YAMLError r = False"

fun is_scalar :: "pyval \<Rightarrow> bool" where
  "is_scalar (PList xs) = False"
| "is_scalar (PDict items) = False"
| "is_scalar (POrderedDict items) = False"
| "is_scalar data = True"

fun is_str :: "pyval \<Rightarrow> bool" where
  "is_str (PStr s) = True"
| "is_str data = False"

section \<open>An example library\<close>

text \<open>
  A library instance defined on a handful of documents, treated as \<open>xmltodict\<close>,
  \<open>json\<close> and PyYAML treat them, with the details of their exceptions in full; on any
  other argument it raises. It serves to run the model on concrete inputs.
\<close>

definition lookup_text :: "(string \<times> (exn + pyval)) list \<Rightarrow> string \<Rightarrow> exn + pyval" where
  "lookup_text table text =
     (case map_of table text of
        Some r \<Rightarrow> r
      | None \<Rightarrow> Inl (OtherError ''NotImplementedError'' text))"

definition lookup_value :: "(pyval \<times> (exn + string)) list \<Rightarrow> pyval \<Rightarrow> exn + string" where
  "lookup_value table data =
     (case map_of table data of
        Some r \<Rightarrow> r
      | None \<Rightarrow> Inl (OtherError ''NotImplementedError'' []))"

definition padded :: pyval where
  "padded = PDict [(''k'', PStr ''a '')]"

definition stripped :: pyval where
  "stripped = PDict [(''k'', PStr ''a'')]"

definition example_lib :: libs where
  "example_lib = \<lparr>
     xml_parse = lookup_text
       [(''<a>1</a>'', Inr (PDict [(''a'', PStr ''1'')])),
        (''<?xml version=\"1.0\" encoding=\"utf-8\"?>\<newline><a>1</a>'',
           Inr (PDict [(''a'', PStr ''1'')]))],
     xml_unparse = lookup_value
       [(PDict [(''a'', PStr ''1'')],
           Inr ''<?xml version=\"1.0\" encoding=\"utf-8\"?>\<newline><a>1</a>'')],
     json_loads = lookup_text
       [(''{\"k\": \"a \"}'', Inr padded),
        (''{\"k\": \"a\"}'', Inr stripped),
        (''{\<newline>  \"k\": \"a \"\<newline>}'', Inr padded),
        (''{\<newline>  \"k\": \"a\"\<newline>}'', Inr stripped),
        (''42'', Inr (PInt 42)),
        (''null'', Inr PNone)],
     json_dumps = (\<lambda>data indent. if indent = 2 then lookup_value
       [(padded, Inr ''{\<newline>  \"k\": \"a \"\<newline>}''),
        (stripped, Inr ''{\<newline>  \"k\": \"a\"\<newline>}''),
        (PInt 42, Inr ''42''),
        (PNone, Inr ''null''),
        (PObject ''datetime.date(2001, 12, 14)'',
           Inl (OtherError ''TypeError'' ''Object of type date is not JSON serializable''))] data
       else Inl (OtherError ''NotImplementedError'' [])),
     yaml_safe_load = lookup_text
       [(''k: a\<newline>'', Inr stripped),
        ([], Inr PNone),
        (''42\<newline>...\<newline>'', Inr (PInt 42)),
        (''null\<newline>...\<newline>'', Inr PNone),
        (''2001-12-14'', Inr (PObject ''datetime.date(2001, 12, 14)'')),
        (''2020-02-30'', Inl (ValueError ''day is out of range for month'')),
        (''!!python/tuple [1, 2]'', Inl (YAMLError
           ''could not determine a constructor for the tag 'tag:yaml.org,2002:python/tuple'\<newline>  in \"<unicode string>\", line 1, column 1:\<newline>    !!python/tuple [1, 2]\<newline>    ^''))],
     yaml_load = lookup_text
       [(''k: a\<newline>'', Inr stripped),
        ([], Inr PNone),
        (''!!python/tuple [1, 2]'', Inr (PObject ''(1, 2)''))],
     yaml_dump = lookup_value
       [(stripped, Inr ''k: a\<newline>''),
        (PInt 42, Inr ''42\<newline>...\<newline>''),
        (PNone, Inr ''null\<newline>...\<newline>'')]
   \<rparr>"

text \<open>
  A store with an ordered map whose first value is a list holding a string with a
  trailing space.
\<close>

definition example_store :: store where
  "example_store = [OList [CStr ''a '', CInt 1], OOrderedDict [(''k'', CRef 0), (''n'', CInt 1)]]"

section \<open>Splitting and joining\<close>

lemma split_on_no_sep: "sep \<notin> set s \<Longrightarrow> split_on sep s = [s]"
  by (induction s) auto

lemma split_on_one_sep:
  "sep \<notin> set a \<Longrightarrow> sep \<notin> set b \<Longrightarrow> split_on sep (a @ sep # b) = [a, b]"
  by (induction a) (auto simp: split_on_no_sep)

lemma split_on_not_Nil [simp]: "split_on sep s \<noteq> []"
  by (induction s) (auto split: list.splits)

lemma split_on_parts_no_sep: "l \<in> set (split_on sep s) \<Longrightarrow> sep \<notin> set l"
  by (induction s arbitrary: l) (auto split: list.splits if_splits)

lemma join_split_on: "join_with [sep] (split_on sep s) = s"
proof (induction s)
  case Nil
  show ?case by simp
next
  case (Cons c cs)
  obtain l ls where sp: "split_on sep cs = l # ls"
    by (cases "split_on sep cs") auto
  with Cons show ?case by (cases ls) auto
qed

lemma split_on_append_sep:
  "sep \<notin> set a \<Longrightarrow> split_on sep (a @ sep # rest) = a # split_on sep rest"
  by (induction a) auto

lemma split_on_join:
  "ls \<noteq> [] \<Longrightarrow> \<forall>l \<in> set ls. sep \<notin> set l \<Longrightarrow> split_on sep (join_with [sep] ls) = ls"
proof (induction ls)
  case Nil
  then show ?case by simp
next
  case (Cons x xs)
  show ?case
  proof (cases xs)
    case Nil
    with Cons.prems show ?thesis by (simp add: split_on_no_sep)
  next
    case (Cons y ys)
    with Cons.IH Cons.prems show ?thesis by (simp add: split_on_append_sep)
  qed
qed

lemma join_with_snoc:
  "join_with sep (ls @ [l]) = (if ls = [] then l else join_with sep ls @ sep @ l)"
  by (induction sep ls rule: join_with.induct) auto

section \<open>Stripping\<close>

lemma rstrip_with_snoc:
  "rstrip_with p (s @ [c]) = (if p c then rstrip_with p s else s @ [c])"
  by (simp add: rstrip_with_def)

lemma rstrip_with_Nil [simp]: "rstrip_with p [] = []"
  by (simp add: rstrip_with_def)

lemma rstrip_with_id: "s = [] \<or> \<not> p (last s) \<Longrightarrow> rstrip_with p s = s"
  by (cases s rule: rev_cases) (auto simp: rstrip_with_snoc)

lemma rstrip_with_last: "rstrip_with p s = [] \<or> \<not> p (last (rstrip_with p s))"
  by (induction s rule: rev_induct) (auto simp: rstrip_with_snoc)

lemma set_rstrip_with: "set (rstrip_with p s) \<subseteq> set s"
  by (induction s rule: rev_induct) (auto simp: rstrip_with_snoc)

lemma is_space_newline [simp]: "is_space newline"
  by (simp add: is_space_def newline_def)

lemma no_trailing_space_rstrip: "no_trailing_space (rstrip s)"
  using rstrip_with_last [of is_space s] by (simp add: no_trailing_space_def rstrip_def)

lemma rstrip_id: "no_trailing_space s \<Longrightarrow> rstrip s = s"
  by (simp add: no_trailing_space_def rstrip_def rstrip_with_id)

lemma rstrip_newlines_id: "no_trailing_space s \<Longrightarrow> rstrip_newlines s = s"
  unfolding no_trailing_space_def rstrip_newlines_def
  by (rule rstrip_with_id) auto

lemma normalised_rstrip_join:
  "\<forall>l \<in> set ls. newline \<notin> set l \<and> no_trailing_space l \<Longrightarrow>
     normalised (rstrip (join_with [newline] ls))"
proof (induction ls rule: rev_induct)
  case Nil
  show ?case by (simp add: normalised_def rstrip_def no_trailing_space_def)
next
  case (snoc l ls)
  show ?case
  proof (cases "l = []")
    case True
    show ?thesis
    proof (cases "ls = []")
      case True
      with \<open>l = []\<close> show ?thesis
        by (simp add: normalised_def rstrip_def no_trailing_space_def)
    next
      case False
      with \<open>l = []\<close> have "rstrip (join_with [newline] (ls @ [l]))
          = rstrip (join_with [newline] ls)"
        by (simp add: join_with_snoc rstrip_def rstrip_with_snoc)
      with snoc show ?thesis by simp
    qed
  next
    case False
    let ?j = "join_with [newline] (ls @ [l])"
    from snoc.prems have l: "no_trailing_space l" by simp
    with False have "\<not> is_space (last l)" by (simp add: no_trailing_space_def)
    with False have nts: "no_trailing_space ?j"
      by (simp add: join_with_snoc no_trailing_space_def)
    have sp: "split_on newline ?j = ls @ [l]"
      using snoc.prems by (intro split_on_join) auto
    have "list_all no_trailing_space (ls @ [l])"
      using snoc.prems by (simp add: list_all_iff)
    with nts sp show ?thesis
      by (simp add: normalised_def rstrip_id)
  qed
qed

lemma normalised_clean_str: "normalised (clean_str s)"
proof -
  have "newline \<notin> set (rstrip l)"
    if "l \<in> set (split_on newline (rstrip_newlines s))" for l
    using split_on_parts_no_sep [OF that] set_rstrip_with [of is_space l]
    by (auto simp: rstrip_def)
  then have "\<forall>l \<in> set (map rstrip (split_on newline (rstrip_newlines s))).
          newline \<notin> set l \<and> no_trailing_space l"
    by (simp add: no_trailing_space_rstrip)
  then show ?thesis
    unfolding clean_str_def Let_def by (rule normalised_rstrip_join)
qed

lemma clean_str_normalised: "normalised s \<Longrightarrow> clean_str s = s"
proof -
  assume n: "normalised s"
  then have a: "rstrip_newlines s = s" and b: "rstrip s = s"
    by (simp_all add: normalised_def rstrip_newlines_id rstrip_id)
  from n have "map rstrip (split_on newline s) = split_on newline s"
    by (auto simp: normalised_def list_all_iff rstrip_id intro: map_idI)
  with a b show ?thesis
    by (simp add: clean_str_def join_split_on)
qed

lemma clean_str_idem: "clean_str (clean_str s) = clean_str s"
  by (rule clean_str_normalised) (rule normalised_clean_str)

section \<open>The string branch, line by line\<close>

lemma split_on_append:
  "split_on sep (a @ sep # b) = split_on sep a @ split_on sep b"
proof (induction a)
  case Nil
  show ?case by simp
next
  case (Cons c a)
  obtain l ls where sp: "split_on sep a = l # ls"
    by (cases "split_on sep a") auto
  with Cons show ?case by simp
qed

lemma split_on_snoc_sep: "split_on sep (s @ [sep]) = split_on sep s @ [[]]"
  using split_on_append [of sep s "[]"] by simp

lemma split_on_trailing_newlines:
  "\<exists>k. split_on newline s = split_on newline (rstrip_newlines s) @ replicate k []"
proof (induction s rule: rev_induct)
  case Nil
  have "split_on newline [] = split_on newline (rstrip_newlines []) @ replicate 0 []"
    by (simp add: rstrip_newlines_def)
  then show ?case by blast
next
  case (snoc c s)
  show ?case
  proof (cases "c = newline")
    case True
    from snoc obtain k where
      k: "split_on newline s = split_on newline (rstrip_newlines s) @ replicate k []" by blast
    from True have "rstrip_newlines (s @ [c]) = rstrip_newlines s"
      by (simp add: rstrip_newlines_def rstrip_with_snoc)
    moreover from True k have "split_on newline (s @ [c])
        = split_on newline (rstrip_newlines s) @ replicate (Suc k) []"
      by (simp add: split_on_snoc_sep replicate_append_same)
    ultimately show ?thesis by metis
  next
    case False
    then have "rstrip_newlines (s @ [c]) = s @ [c]"
      by (simp add: rstrip_newlines_def rstrip_with_snoc)
    then have "split_on newline (s @ [c])
        = split_on newline (rstrip_newlines (s @ [c])) @ replicate 0 []"
      by simp
    then show ?thesis by blast
  qed
qed

lemma drop_trailing_blank_snoc:
  "drop_trailing_blank (ls @ [l]) = (if l = [] then drop_trailing_blank ls else ls @ [l])"
  by (simp add: drop_trailing_blank_def)

lemma drop_trailing_blank_replicate:
  "drop_trailing_blank (ls @ replicate k []) = drop_trailing_blank ls"
proof (induction k)
  case 0
  show ?case by simp
next
  case (Suc k)
  have "ls @ replicate (Suc k) [] = (ls @ replicate k []) @ [[]]"
    by (simp add: replicate_append_same)
  then have "drop_trailing_blank (ls @ replicate (Suc k) [])
      = drop_trailing_blank (ls @ replicate k [])"
    by (simp only: drop_trailing_blank_snoc) simp
  with Suc show ?case by simp
qed

lemma rstrip_join_stripped:
  "\<forall>l \<in> set ls. no_trailing_space l \<Longrightarrow>
     rstrip (join_with [newline] ls) = join_with [newline] (drop_trailing_blank ls)"
proof (induction ls rule: rev_induct)
  case Nil
  show ?case by (simp add: rstrip_def drop_trailing_blank_def)
next
  case (snoc l ls)
  show ?case
  proof (cases "l = []")
    case True
    show ?thesis
    proof (cases "ls = []")
      case True
      with \<open>l = []\<close> show ?thesis by (simp add: rstrip_def drop_trailing_blank_def)
    next
      case False
      with \<open>l = []\<close> have "rstrip (join_with [newline] (ls @ [l]))
          = rstrip (join_with [newline] ls)"
        by (simp add: join_with_snoc rstrip_def rstrip_with_snoc)
      with snoc \<open>l = []\<close> show ?thesis by (simp add: drop_trailing_blank_snoc)
    qed
  next
    case False
    from snoc.prems have "no_trailing_space l" by simp
    with False have "\<not> is_space (last l)" by (simp add: no_trailing_space_def)
    with False have "no_trailing_space (join_with [newline] (ls @ [l]))"
      by (simp add: join_with_snoc no_trailing_space_def)
    with False show ?thesis by (simp add: rstrip_id drop_trailing_blank_snoc)
  qed
qed

lemma rstrip_Nil [simp]: "rstrip [] = []"
  by (simp add: rstrip_def)

lemma clean_str_spec: "clean_str s = strip_lines_spec s"
proof -
  obtain k where k: "split_on newline s
      = split_on newline (rstrip_newlines s) @ replicate k []"
    using split_on_trailing_newlines by blast
  let ?ls = "map rstrip (split_on newline (rstrip_newlines s))"
  have "\<forall>l \<in> set ?ls. no_trailing_space l"
    by (simp add: no_trailing_space_rstrip)
  then have "clean_str s = join_with [newline] (drop_trailing_blank ?ls)"
    unfolding clean_str_def Let_def by (rule rstrip_join_stripped)
  moreover have "map rstrip (split_on newline s) = ?ls @ replicate k []"
    by (simp add: k)
  ultimately show ?thesis
    by (simp add: strip_lines_spec_def drop_trailing_blank_replicate)
qed

lemma rstrip_decompose:
  "\<exists>w. s = rstrip s @ w \<and> list_all is_space w"
proof -
  have "s = rev (dropWhile is_space (rev s)) @ rev (takeWhile is_space (rev s))"
    by (metis rev_append rev_rev_ident takeWhile_dropWhile_id)
  moreover have "list_all is_space (rev (takeWhile is_space (rev s)))"
    by (simp add: list_all_iff) (meson set_takeWhileD)
  ultimately show ?thesis
    unfolding rstrip_def rstrip_with_def by blast
qed

section \<open>Dict comprehensions\<close>

lemma dict_set_new: "key \<notin> fst ` set d \<Longrightarrow> dict_set d key v = d @ [(key, v)]"
  by (induction d) auto

lemma foldl_dict_set_distinct:
  "distinct (map fst (d @ items)) \<Longrightarrow>
     foldl (\<lambda>d (key, v). dict_set d key v) d items = d @ items"
proof (induction items arbitrary: d)
  case Nil
  show ?case by simp
next
  case (Cons kv items)
  obtain key v where kv: "kv = (key, v)" by (cases kv)
  from Cons.prems kv have "key \<notin> fst ` set d" by auto
  then have "dict_set d key v = d @ [(key, v)]" by (rule dict_set_new)
  moreover from Cons.prems kv have "distinct (map fst ((d @ [(key, v)]) @ items))" by simp
  ultimately show ?case using Cons.IH [of "d @ [(key, v)]"] kv by simp
qed

lemma dict_of_items_distinct:
  "distinct (map fst items) \<Longrightarrow> dict_of_items items = items"
  using foldl_dict_set_distinct [of "[]" items] by (simp add: dict_of_items_def)

lemma dict_comprehension:
  "distinct (map fst items) \<Longrightarrow>
     dict_of_items (map (\<lambda>(key, v). (key, f v)) items) = map (\<lambda>(key, v). (key, f v)) items"
  by (rule dict_of_items_distinct) (simp add: comp_def case_prod_unfold)

section \<open>The pre-pass on values\<close>

lemma clean_idem: "clean_data_for_yaml (clean_data_for_yaml v) = clean_data_for_yaml v"
  by (induction v rule: clean_data_for_yaml.induct) (auto simp: clean_str_idem)

lemma block_clean_clean: "block_clean (clean_data_for_yaml v)"
  by (induction v rule: clean_data_for_yaml.induct)
     (auto simp: normalised_clean_str list_all_iff)

lemma clean_block_clean: "block_clean v \<Longrightarrow> clean_data_for_yaml v = v"
  by (induction v rule: clean_data_for_yaml.induct)
     (auto simp: clean_str_normalised list_all_iff intro!: map_idI)

lemma dict_keys_clean: "dict_keys (clean_data_for_yaml v) = dict_keys v"
  by (cases v) (auto simp: comp_def case_prod_unfold)

lemma all_keys_clean: "all_keys (clean_data_for_yaml v) = all_keys v"
  by (induction v rule: clean_data_for_yaml.induct)
     (auto simp: comp_def case_prod_unfold intro!: arg_cong [where f = concat])

lemma strings_of_clean:
  "strings_of (clean_data_for_yaml v) = map clean_str (strings_of v)"
  by (induction v rule: clean_data_for_yaml.induct)
     (auto simp: comp_def case_prod_unfold map_concat intro!: arg_cong [where f = concat])

lemma skeleton_clean: "skeleton (clean_data_for_yaml v) = skeleton v"
  by (induction v rule: clean_data_for_yaml.induct)
     (auto simp: comp_def case_prod_unfold)

section \<open>The pre-pass on a store\<close>

lemma clean_frame:
  "\<forall>s' c'. clean_cell d s c = Some (s', c') \<longrightarrow> prefix s s'"
  "\<forall>s' cs'. clean_cells d s cs = Some (s', cs') \<longrightarrow> prefix s s'"
proof (induction d s c and d s cs rule: clean_cell_clean_cells.induct)
  case (2 d s r)
  show ?case
  proof (intro allI impI)
    fix s' c'
    assume c: "clean_cell (Suc d) s (CRef r) = Some (s', c')"
    then have r: "\<not> length s \<le> r" by (simp split: if_splits)
    show "prefix s s'"
    proof (cases "s ! r")
      case (OList xs)
      with c r obtain s1 cs where "clean_cells d s xs = Some (s1, cs)" "s' = s1 @ [OList cs]"
        by (auto split: option.splits)
      with 2(1) [OF r OList] show ?thesis by (auto intro: prefix_order.trans)
    next
      case (ODict items)
      with c r obtain s1 cs where "clean_cells d s (map snd items) = Some (s1, cs)"
        "s' = s1 @ [ODict (zip (map fst items) cs)]"
        by (auto split: option.splits)
      with 2(2) [OF r ODict] show ?thesis by (auto intro: prefix_order.trans)
    next
      case (OOrderedDict items)
      with c r obtain s1 cs where "clean_cells d s (map snd items) = Some (s1, cs)"
        "s' = s1 @ [ODict (zip (map fst items) cs)]"
        by (auto split: option.splits)
      with 2(3) [OF r OOrderedDict] show ?thesis by (auto intro: prefix_order.trans)
    next
      case (OObject repr)
      with c r show ?thesis by simp
    qed
  qed
next
  case (6 d s c cs)
  show ?case
  proof (intro allI impI)
    fix s' cs'
    assume c: "clean_cells d s (c # cs) = Some (s', cs')"
    then obtain s1 c' cs1 where a: "clean_cell d s c = Some (s1, c')"
      and b: "clean_cells d s1 cs = Some (s', cs1)"
      by (auto split: option.splits)
    from 6(1) a have "prefix s s1" by blast
    moreover from 6(2) [OF a refl] b have "prefix s1 s'" by blast
    ultimately show "prefix s s'" by (rule prefix_order.trans)
  qed
qed simp_all

lemma prefix_nth: "prefix s s' \<Longrightarrow> r < length s \<Longrightarrow> s' ! r = s ! r"
  by (auto simp: prefix_def nth_append)

lemma denote_mono:
  "\<forall>v. prefix s s' \<longrightarrow> denote n s c = Some v \<longrightarrow> denote n s' c = Some v"
  "\<forall>vs. prefix s s' \<longrightarrow> denotes n s cs = Some vs \<longrightarrow> denotes n s' cs = Some vs"
proof (induction n s c and n s cs rule: denote_denotes.induct)
  case (7 n s r)
  show ?case
  proof (intro allI impI)
    fix v
    assume p: "prefix s s'" and d: "denote (Suc n) s (CRef r) = Some v"
    from d have r: "\<not> length s \<le> r" by (simp split: if_splits)
    with p have r': "\<not> length s' \<le> r" and nth: "s' ! r = s ! r"
      using prefix_length_le [OF p] by (auto simp: prefix_nth)
    show "denote (Suc n) s' (CRef r) = Some v"
    proof (cases "s ! r")
      case (OList xs)
      with d r 7(1) [OF r OList] p r' nth show ?thesis by auto
    next
      case (ODict items)
      with d r 7(2) [OF r ODict] p r' nth show ?thesis by auto
    next
      case (OOrderedDict items)
      with d r 7(3) [OF r OOrderedDict] p r' nth show ?thesis by auto
    next
      case (OObject repr)
      with d r r' nth show ?thesis by simp
    qed
  qed
next
  case (9 n s c cs)
  show ?case
  proof (intro allI impI)
    fix vs
    assume p: "prefix s s'" and d: "denotes n s (c # cs) = Some vs"
    then obtain v ws where a: "denote n s c = Some v" and b: "denotes n s cs = Some ws"
      and vs: "vs = v # ws"
      by (auto split: option.splits)
    from 9(1) p a have "denote n s' c = Some v" by blast
    moreover from 9(2) [OF a] p b have "denotes n s' cs = Some ws" by blast
    ultimately show "denotes n s' (c # cs) = Some vs" by (simp add: vs)
  qed
qed simp_all

lemma clean_cells_length:
  "clean_cells d s cs = Some (s', cs') \<Longrightarrow> length cs' = length cs"
  by (induction cs arbitrary: s s' cs') (auto split: option.splits)

lemma clean_zip:
  "map (\<lambda>(key, v). (key, clean_data_for_yaml v)) (zip ks vs) = zip ks (map clean_data_for_yaml vs)"
  by (induction ks vs rule: list_induct2') auto

lemma clean_refines:
  "\<forall>v. denote d s c = Some v \<longrightarrow>
     (\<exists>s' c'. clean_cell d s c = Some (s', c') \<and> denote d s' c' = Some (clean_data_for_yaml v))"
  "\<forall>vs. denotes d s cs = Some vs \<longrightarrow>
     (\<exists>s' cs'. clean_cells d s cs = Some (s', cs')
        \<and> denotes d s' cs' = Some (map clean_data_for_yaml vs))"
proof (induction d s c and d s cs rule: clean_cell_clean_cells.induct)
  case (2 d s r)
  show ?case
  proof (intro allI impI)
    fix v
    assume dv: "denote (Suc d) s (CRef r) = Some v"
    then have r: "\<not> length s \<le> r" by (simp split: if_splits)
    show "\<exists>s' c'. clean_cell (Suc d) s (CRef r) = Some (s', c')
            \<and> denote (Suc d) s' c' = Some (clean_data_for_yaml v)"
    proof (cases "s ! r")
      case (OList xs)
      with dv r obtain vs where vs: "denotes d s xs = Some vs" and v: "v = PList vs"
        by auto
      with 2(1) [OF r OList] obtain s1 cs where
        c: "clean_cells d s xs = Some (s1, cs)"
        and dn: "denotes d s1 cs = Some (map clean_data_for_yaml vs)"
        by blast
      have "prefix s1 (s1 @ [OList cs])" by simp
      with dn denote_mono(2) have "denotes d (s1 @ [OList cs]) cs = Some (map clean_data_for_yaml vs)"
        by blast
      with c r OList v show ?thesis by simp
    next
      case (ODict items)
      with dv r obtain vs where vs: "denotes d s (map snd items) = Some vs"
        and v: "v = PDict (zip (map fst items) vs)"
        by auto
      with 2(2) [OF r ODict] obtain s1 cs where
        c: "clean_cells d s (map snd items) = Some (s1, cs)"
        and dn: "denotes d s1 cs = Some (map clean_data_for_yaml vs)"
        by blast
      let ?new = "ODict (zip (map fst items) cs)"
      have "prefix s1 (s1 @ [?new])" by simp
      with dn denote_mono(2) have "denotes d (s1 @ [?new]) cs = Some (map clean_data_for_yaml vs)"
        by blast
      moreover from clean_cells_length [OF c] have "length cs = length (map fst items)"
        by simp
      then have "map snd (zip (map fst items) cs) = cs"
        and "map fst (zip (map fst items) cs) = map fst items"
        by simp_all
      ultimately show ?thesis using c r ODict v by (simp add: clean_zip)
    next
      case (OOrderedDict items)
      with dv r obtain vs where vs: "denotes d s (map snd items) = Some vs"
        and v: "v = POrderedDict (zip (map fst items) vs)"
        by auto
      with 2(3) [OF r OOrderedDict] obtain s1 cs where
        c: "clean_cells d s (map snd items) = Some (s1, cs)"
        and dn: "denotes d s1 cs = Some (map clean_data_for_yaml vs)"
        by blast
      let ?new = "ODict (zip (map fst items) cs)"
      have "prefix s1 (s1 @ [?new])" by simp
      with dn denote_mono(2) have "denotes d (s1 @ [?new]) cs = Some (map clean_data_for_yaml vs)"
        by blast
      moreover from clean_cells_length [OF c] have "length cs = length (map fst items)"
        by simp
      then have "map snd (zip (map fst items) cs) = cs"
        and "map fst (zip (map fst items) cs) = map fst items"
        by simp_all
      ultimately show ?thesis using c r OOrderedDict v by (simp add: clean_zip)
    next
      case (OObject repr)
      with dv r show ?thesis by auto
    qed
  qed
next
  case (6 d s c cs)
  show ?case
  proof (intro allI impI)
    fix vs
    assume d: "denotes d s (c # cs) = Some vs"
    then obtain v ws where a: "denote d s c = Some v" and b: "denotes d s cs = Some ws"
      and vs: "vs = v # ws"
      by (auto split: option.splits)
    from 6(1) a obtain s1 c' where c1: "clean_cell d s c = Some (s1, c')"
      and d1: "denote d s1 c' = Some (clean_data_for_yaml v)"
      by blast
    from clean_frame(1) c1 have p1: "prefix s s1" by blast
    with denote_mono(2) b have "denotes d s1 cs = Some ws" by blast
    with 6(2) [OF c1 refl] obtain s2 cs' where c2: "clean_cells d s1 cs = Some (s2, cs')"
      and d2: "denotes d s2 cs' = Some (map clean_data_for_yaml ws)"
      by blast
    from clean_frame(2) c2 have "prefix s1 s2" by blast
    with denote_mono(1) d1 have "denote d s2 c' = Some (clean_data_for_yaml v)" by blast
    with c1 c2 d2 vs show "\<exists>s' cs'. clean_cells d s (c # cs) = Some (s', cs')
        \<and> denotes d s' cs' = Some (map clean_data_for_yaml vs)"
      by simp
  qed
qed simp_all

lemma clean_cell_result:
  assumes "clean_cell d s c = Some (s', c')"
  shows "(refers_to_container s c \<longrightarrow> is_fresh_ref s c')
         \<and> (\<not> refers_to_container s c \<longrightarrow> s' = s)
         \<and> (\<not> refers_to_container s c \<and> \<not> is_string_cell c \<longrightarrow> c' = c)"
proof (cases d)
  case 0
  with assms show ?thesis by simp
next
  case (Suc n)
  show ?thesis
  proof (cases c)
    case (CRef r)
    from assms Suc CRef have r: "\<not> length s \<le> r" by (simp split: if_splits)
    show ?thesis
    proof (cases "s ! r")
      case (OList xs)
      with assms Suc CRef r obtain s1 cs where c: "clean_cells n s xs = Some (s1, cs)"
        and e: "c' = CRef (length s1)"
        by (auto split: option.splits)
      from clean_frame(2) c have "prefix s s1" by blast
      with e OList CRef r show ?thesis by (auto dest: prefix_length_le)
    next
      case (ODict items)
      with assms Suc CRef r obtain s1 cs where c: "clean_cells n s (map snd items) = Some (s1, cs)"
        and e: "c' = CRef (length s1)"
        by (auto split: option.splits)
      from clean_frame(2) c have "prefix s s1" by blast
      with e ODict CRef r show ?thesis by (auto dest: prefix_length_le)
    next
      case (OOrderedDict items)
      with assms Suc CRef r obtain s1 cs where c: "clean_cells n s (map snd items) = Some (s1, cs)"
        and e: "c' = CRef (length s1)"
        by (auto split: option.splits)
      from clean_frame(2) c have "prefix s s1" by blast
      with e OOrderedDict CRef r show ?thesis by (auto dest: prefix_length_le)
    next
      case (OObject repr)
      with assms Suc CRef r show ?thesis by auto
    qed
  qed (use assms Suc in auto)
qed

section \<open>Readers and writers, branch by branch\<close>

lemma load_data_xml: "load_data L content ''xml'' = xml_parse L content"
  by (simp add: load_data_def load_data_traced_def)

lemma load_data_json: "load_data L content ''json'' = json_loads L content"
  by (simp add: load_data_def load_data_traced_def)

lemma load_data_yaml:
  "load_data L content ''yaml'' =
     (if raises_YAMLError (yaml_safe_load L content) then yaml_load L content
      else yaml_safe_load L content)"
  by (auto simp: load_data_def load_data_traced_def split: sum.splits exn.splits)

lemma load_data_yaml_trace:
  "fst (load_data_traced L content ''yaml'') =
     (if raises_YAMLError (yaml_safe_load L content) then [YamlSafeLoad, YamlLoad]
      else [YamlSafeLoad])"
  by (auto simp: load_data_traced_def split: sum.splits exn.splits)

lemma convert_data_xml: "convert_data L data ''xml'' = xml_unparse L data"
  by (simp add: convert_data_def)

lemma convert_data_json: "convert_data L data ''json'' = json_dumps L data 2"
  by (simp add: convert_data_def)

lemma convert_data_yaml: "convert_data L data ''yaml'' = yaml_dump L (clean_data_for_yaml data)"
  by (simp add: convert_data_def)

text \<open>
  The readers wrap nothing: an exception of a parser leaves \<open>load_data\<close> as it is, and
  whatever \<open>load_data\<close> raises for a supported format was raised by a parser.
\<close>

lemma load_data_propagates_parser_error:
  "(xml_parse L content = Inl e \<longrightarrow> load_data L content ''xml'' = Inl e)
   \<and> (json_loads L content = Inl e \<longrightarrow> load_data L content ''json'' = Inl e)
   \<and> (yaml_safe_load L content = Inl e \<and> yaml_load L content = Inl e' \<longrightarrow>
         load_data L content ''yaml''
           = Inl (if raises_YAMLError (yaml_safe_load L content) then e' else e))
   \<and> (load_data L content from_fmt = Inl e \<and> from_fmt \<in> set supported_formats \<longrightarrow>
         xml_parse L content = Inl e \<or> json_loads L content = Inl e
         \<or> yaml_safe_load L content = Inl e \<or> yaml_load L content = Inl e)"
  by (auto simp: load_data_xml load_data_json load_data_yaml supported_formats_def
        split: if_splits)

section \<open>Facts about \<open>parse_mode\<close> and the pipeline\<close>

lemmas parse_mode_unfold =
  parse_mode_def MODE_SEPARATOR_def EXPECTED_PARTS_def supported_formats_def
  msg_no_separator_def msg_separator_count_def msg_unsupported_source_def
  msg_unsupported_target_def msg_same_format_def

lemma parse_mode_one_separator:
  assumes "MODE_SEPARATOR \<notin> set a" and "MODE_SEPARATOR \<notin> set b"
  shows "parse_mode (a @ MODE_SEPARATOR # b) =
    (if a \<notin> set supported_formats then Inl (ValueError (msg_unsupported_source a))
     else if b \<notin> set supported_formats then Inl (ValueError (msg_unsupported_target b))
     else if a = b then Inl (ValueError (msg_same_format a))
     else Inr (a, b))"
  using assms by (simp add: parse_mode_def split_on_one_sep EXPECTED_PARTS_def)

lemma unsupported_msgs_not_invalid:
  "msg_unsupported_source p \<noteq> msg_no_separator m"
  "msg_unsupported_source p \<noteq> msg_separator_count m"
  "msg_unsupported_target p \<noteq> msg_no_separator m"
  "msg_unsupported_target p \<noteq> msg_separator_count m"
  by (simp_all add: msg_unsupported_source_def msg_unsupported_target_def
        msg_no_separator_def msg_separator_count_def)

lemma empty_not_supported: "[] \<notin> set supported_formats"
  by (simp add: supported_formats_def)

lemma parse_mode_supported:
  assumes "from_fmt \<in> set supported_formats" and "to_fmt \<in> set supported_formats"
    and "from_fmt \<noteq> to_fmt"
  shows "parse_mode (from_fmt @ MODE_SEPARATOR # to_fmt) = Inr (from_fmt, to_fmt)"
proof -
  have "MODE_SEPARATOR \<notin> set from_fmt" "MODE_SEPARATOR \<notin> set to_fmt"
    using assms(1,2) by (auto simp: supported_formats_def MODE_SEPARATOR_def)
  then show ?thesis
    using assms by (simp add: parse_mode_one_separator)
qed

lemma sub_main_supported:
  assumes "from_fmt \<in> set supported_formats" and "to_fmt \<in> set supported_formats"
    and "from_fmt \<noteq> to_fmt"
  shows "sub_main L content (from_fmt @ MODE_SEPARATOR # to_fmt) =
     (case load_data L content from_fmt of
        Inl e \<Rightarrow> Inl e
      | Inr data \<Rightarrow> convert_data L data to_fmt)"
  by (simp add: sub_main_def parse_mode_supported [OF assms])

lemma parse_mode_json2yaml: "parse_mode ''json2yaml'' = Inr (''json'', ''yaml'')"
  by (simp add: parse_mode_unfold)

lemma parse_mode_yaml2json: "parse_mode ''yaml2json'' = Inr (''yaml'', ''json'')"
  by (simp add: parse_mode_unfold)

lemma sub_main_json2yaml:
  "sub_main L content ''json2yaml'' =
     (case json_loads L content of
        Inl e \<Rightarrow> Inl e
      | Inr data \<Rightarrow> yaml_dump L (clean_data_for_yaml data))"
  by (simp add: sub_main_def parse_mode_json2yaml load_data_json convert_data_yaml split: sum.splits)

lemma sub_main_yaml2json:
  "sub_main L content ''yaml2json'' =
     (case load_data L content ''yaml'' of
        Inl e \<Rightarrow> Inl e
      | Inr data \<Rightarrow> json_dumps L data 2)"
  by (simp add: sub_main_def parse_mode_yaml2json convert_data_json split: sum.splits)

lemma load_data_Inr_supported:
  "load_data L content from_fmt = Inr v \<Longrightarrow> from_fmt \<in> set supported_formats"
  by (auto simp: load_data_def load_data_traced_def supported_formats_def split: if_splits)

lemma clean_scalar:
  "is_scalar v \<Longrightarrow> is_scalar (clean_data_for_yaml v) \<and> (\<not> is_str v \<longrightarrow> clean_data_for_yaml v = v)"
  by (cases v) auto

section \<open>The example documents\<close>

lemmas example_lib_unfold =
  example_lib_def lookup_text_def lookup_value_def padded_def stripped_def

lemma clean_padded: "clean_data_for_yaml padded = stripped"
  by (simp add: padded_def stripped_def clean_str_def rstrip_def rstrip_newlines_def
        rstrip_with_def is_space_def newline_def)

lemma clean_stripped: "clean_data_for_yaml stripped = stripped"
  by (simp add: padded_def stripped_def clean_str_def rstrip_def rstrip_newlines_def
        rstrip_with_def is_space_def newline_def)

lemma padded_neq_stripped: "padded \<noteq> stripped"
  by (simp add: padded_def stripped_def)

lemma canonical_examples: "canonical padded" "canonical stripped"
  by (simp_all add: padded_def stripped_def)

lemma example_yaml_reads_back: "lib_reads_back example_lib ''yaml'' stripped stripped"
  by (simp add: lib_reads_back_def example_lib_unfold)

lemma example_json_reads_back:
  "lib_reads_back example_lib ''json'' stripped stripped"
  "lib_reads_back example_lib ''json'' padded padded"
  by (simp_all add: lib_reads_back_def example_lib_unfold)

lemma example_json_loads_padded: "json_loads example_lib ''{\"k\": \"a \"}'' = Inr padded"
  by (simp add: example_lib_unfold)

lemma clean_str_examples:
  "clean_str ''hello world'' = ''hello world''"
  "clean_str ''a \<newline> \<newline>b\<newline>\<newline> \<newline>'' = ''a\<newline>\<newline>b''"
  "clean_str ''  x\<newline>'' = ''  x''"
  by (simp_all add: clean_str_def rstrip_def rstrip_newlines_def rstrip_with_def
        is_space_def newline_def)

lemma example_store_denotes:
  "denote 3 example_store (CRef 1)
     = Some (POrderedDict [(''k'', PList [PStr ''a '', PInt 1]), (''n'', PInt 1)])"
  by (simp add: example_store_def numeral_3_eq_3)

lemma example_store_clean:
  "clean_cell 3 example_store (CRef 1)
     = Some (example_store @ [OList [CStr ''a'', CInt 1], ODict [(''k'', CRef 2), (''n'', CInt 1)]],
             CRef 3)"
  by (simp add: example_store_def numeral_3_eq_3 clean_str_def rstrip_def rstrip_newlines_def
        rstrip_with_def is_space_def newline_def)

section \<open>Directive validation\<close>

text \<open>
  Claim C4. The mode resolver maps \<open>xml2json\<close> to the pair (xml, json). It rejects
  \<open>xmljson\<close>, which has no separator, with the invalid-mode message; \<open>xml2xml\<close> with the
  same-format message; and \<open>xml2csv\<close> with the unsupported-target message. All three are
  \<open>ValueError\<close>s whose message spells out the offending token: the whole mode
  \<open>xmljson\<close>, the repeated format \<open>xml\<close>, the unknown format \<open>csv\<close>.
\<close>

theorem parse_mode_directive_validation:
  "parse_mode ''xml2json'' = Inr (''xml'', ''json'')
   \<and> parse_mode ''xmljson'' = Inl (ValueError
         ''Invalid mode format: xmljson. Expected format: 'from2to' (e.g., 'xml2json')'')
   \<and> parse_mode ''xml2xml'' = Inl (ValueError ''Source and target formats are the same: xml'')
   \<and> parse_mode ''xml2csv'' = Inl (ValueError
         ''Unsupported target format: csv. Supported: xml, json, yaml'')"
  by (simp add: parse_mode_unfold)

section \<open>Round trip in one format\<close>

lemma write_then_read_yaml_clean:
  "write_then_read L ''yaml'' v = write_then_read L ''yaml'' (clean_data_for_yaml v)"
  by (simp add: write_then_read_def convert_data_yaml clean_idem)

text \<open>
  Claim C1 says that writing a canonical value in a format and reading the text back
  gives the value again, for each of the three formats. For the block format this fails
  whatever the YAML library does: the writer serializes \<open>clean_data_for_yaml v\<close>, so the
  mapping with the string \<open>a\<close> followed by a space and the mapping with the string \<open>a\<close>
  are written as the same text, and no reader returns both. With the example library
  the first comes back as the second.
\<close>

theorem write_then_read_yaml_counterexample:
  "write_then_read example_lib ''yaml'' (PDict [(''k'', PStr ''a '')])
     = Inr (PDict [(''k'', PStr ''a'')])
   \<and> \<not> (\<exists>L. \<forall>v. canonical v \<longrightarrow> write_then_read L ''yaml'' v = Inr v)"
proof
  have "yaml_dump example_lib stripped = Inr ''k: a\<newline>''"
    by (simp add: example_lib_unfold)
  moreover have "yaml_safe_load example_lib ''k: a\<newline>'' = Inr stripped"
    by (simp add: example_lib_unfold)
  ultimately have "write_then_read example_lib ''yaml'' padded = Inr stripped"
    by (simp add: write_then_read_def convert_data_yaml load_data_yaml clean_padded)
  then show "write_then_read example_lib ''yaml'' (PDict [(''k'', PStr ''a '')])
     = Inr (PDict [(''k'', PStr ''a'')])"
    by (simp add: padded_def stripped_def)
next
  show "\<not> (\<exists>L. \<forall>v. canonical v \<longrightarrow> write_then_read L ''yaml'' v = Inr v)"
  proof
    assume "\<exists>L. \<forall>v. canonical v \<longrightarrow> write_then_read L ''yaml'' v = Inr v"
    then obtain L where L: "\<And>v. canonical v \<Longrightarrow> write_then_read L ''yaml'' v = Inr v"
      by blast
    have "write_then_read L ''yaml'' padded = write_then_read L ''yaml'' stripped"
      using write_then_read_yaml_clean [of L padded] by (simp add: clean_padded)
    then have "(Inr padded :: exn + pyval) = Inr stripped"
      unfolding L [OF canonical_examples(1)] L [OF canonical_examples(2)] .
    then have "padded = stripped" by (rule Inr_inject)
    with padded_neq_stripped show False by contradiction
  qed
qed

text \<open>
  Claim C1, amended. For every value \<open>v\<close> and format, writing then reading yields
  exactly what the library of that format reads back from its own serialization of the
  value the writer hands it. The markup and object-notation writers hand over \<open>v\<close>
  itself (so whatever the markup library does to numbers and booleans is what comes
  back); the block writer hands over \<open>clean_data_for_yaml v\<close>. The value handed over
  is \<open>v\<close> itself exactly when the format is not the block format or \<open>v\<close> is
  block-clean: no ordered-map node, and every string already normalised.
\<close>

theorem write_then_read_amended:
  assumes "lib_reads_back L fmt x r"
    and "x = (if fmt = ''yaml'' then clean_data_for_yaml v else v)"
  shows "write_then_read L fmt v = Inr r \<and> (x = v \<longleftrightarrow> fmt \<noteq> ''yaml'' \<or> block_clean v)"
proof
  show "write_then_read L fmt v = Inr r"
    using assms
    by (auto simp: lib_reads_back_def write_then_read_def convert_data_def load_data_xml
          load_data_json load_data_yaml split: if_splits sum.splits)
next
  have "clean_data_for_yaml v = v \<longleftrightarrow> block_clean v"
    using block_clean_clean [of v] clean_block_clean [of v] by auto
  with assms(2) show "x = v \<longleftrightarrow> fmt \<noteq> ''yaml'' \<or> block_clean v"
    by auto
qed

theorem write_then_read_amended_witness:
  "write_then_read example_lib ''yaml'' (PDict [(''k'', PStr ''a '')])
     = Inr (PDict [(''k'', PStr ''a'')])
   \<and> write_then_read example_lib ''json'' (PDict [(''k'', PStr ''a '')])
     = Inr (PDict [(''k'', PStr ''a '')])"
proof -
  have "write_then_read example_lib ''yaml'' padded = Inr stripped"
    using write_then_read_amended [OF example_yaml_reads_back, of padded]
    by (simp add: clean_padded)
  moreover have "write_then_read example_lib ''json'' padded = Inr padded"
    using write_then_read_amended [OF example_json_reads_back(2), of padded]
    by simp
  ultimately show ?thesis
    by (simp add: padded_def stripped_def)
qed

section \<open>Object notation to block format and back\<close>

lemma json_yaml_json_clean:
  assumes "json_loads L text = Inr v"
  shows "json_yaml_json L text =
    (case yaml_dump L (clean_data_for_yaml v) of
       Inl e \<Rightarrow> Inl e
     | Inr block \<Rightarrow>
         (case sub_main L block ''yaml2json'' of
            Inl e \<Rightarrow> Inl e
          | Inr object \<Rightarrow> load_data L object ''json''))"
  using assms by (simp add: json_yaml_json_def sub_main_json2yaml)

text \<open>
  Claim C2 says that a text parsed as object notation, converted with \<open>json2yaml\<close> and
  then with \<open>yaml2json\<close>, parses to the value of the original parse. The text
  \<^verbatim>\<open>{"k": "a "}\<close> refutes it: the block writer strips the trailing space, so the
  cycle ends in the mapping with the string \<open>a\<close>. This holds for the example library,
  and no library that parses both \<^verbatim>\<open>{"k": "a "}\<close> and \<^verbatim>\<open>{"k": "a"}\<close> as
  JSON does can satisfy the claim.
\<close>

theorem json_yaml_json_counterexample:
  "json_loads example_lib ''{\"k\": \"a \"}'' = Inr (PDict [(''k'', PStr ''a '')])
   \<and> json_yaml_json example_lib ''{\"k\": \"a \"}'' = Inr (PDict [(''k'', PStr ''a'')])
   \<and> \<not> (\<exists>L. json_loads L ''{\"k\": \"a \"}'' = Inr (PDict [(''k'', PStr ''a '')])
           \<and> json_loads L ''{\"k\": \"a\"}'' = Inr (PDict [(''k'', PStr ''a'')])
           \<and> (\<forall>text v. json_loads L text = Inr v \<longrightarrow> json_yaml_json L text = Inr v))"
proof (intro conjI)
  show "json_loads example_lib ''{\"k\": \"a \"}'' = Inr (PDict [(''k'', PStr ''a '')])"
    by (simp add: example_lib_unfold)
next
  have y: "yaml_dump example_lib stripped = Inr ''k: a\<newline>''"
    and s: "yaml_safe_load example_lib ''k: a\<newline>'' = Inr stripped"
    and d: "json_dumps example_lib stripped 2 = Inr ''{\<newline>  \"k\": \"a\"\<newline>}''"
    and l: "json_loads example_lib ''{\<newline>  \"k\": \"a\"\<newline>}'' = Inr stripped"
    by (simp_all add: example_lib_unfold)
  have "json_yaml_json example_lib ''{\"k\": \"a \"}'' = Inr stripped"
    by (simp add: json_yaml_json_clean [OF example_json_loads_padded] clean_padded y
          sub_main_yaml2json load_data_yaml s d load_data_json l)
  then show "json_yaml_json example_lib ''{\"k\": \"a \"}'' = Inr (PDict [(''k'', PStr ''a'')])"
    by (simp add: stripped_def)
next
  show "\<not> (\<exists>L. json_loads L ''{\"k\": \"a \"}'' = Inr (PDict [(''k'', PStr ''a '')])
           \<and> json_loads L ''{\"k\": \"a\"}'' = Inr (PDict [(''k'', PStr ''a'')])
           \<and> (\<forall>text v. json_loads L text = Inr v \<longrightarrow> json_yaml_json L text = Inr v))"
  proof
    assume "\<exists>L. json_loads L ''{\"k\": \"a \"}'' = Inr (PDict [(''k'', PStr ''a '')])
           \<and> json_loads L ''{\"k\": \"a\"}'' = Inr (PDict [(''k'', PStr ''a'')])
           \<and> (\<forall>text v. json_loads L text = Inr v \<longrightarrow> json_yaml_json L text = Inr v)"
    then obtain L where p: "json_loads L ''{\"k\": \"a \"}'' = Inr padded"
      and q: "json_loads L ''{\"k\": \"a\"}'' = Inr stripped"
      and all: "\<And>text v. json_loads L text = Inr v \<Longrightarrow> json_yaml_json L text = Inr v"
      unfolding padded_def stripped_def by blast
    have "json_yaml_json L ''{\"k\": \"a \"}'' = json_yaml_json L ''{\"k\": \"a\"}''"
      unfolding json_yaml_json_clean [OF p] json_yaml_json_clean [OF q]
        clean_padded clean_stripped ..
    then have "(Inr padded :: exn + pyval) = Inr stripped"
      unfolding all [OF p] all [OF q] .
    then have "padded = stripped" by (rule Inr_inject)
    with padded_neq_stripped show False by contradiction
  qed
qed

text \<open>
  Claim C2, amended. When the text parses as object notation to \<open>v\<close>, and the YAML and
  JSON libraries each read back \<open>clean_data_for_yaml v\<close> from their own serialization
  of it, the cycle \<open>json2yaml\<close>, \<open>yaml2json\<close>, parse yields \<open>clean_data_for_yaml v\<close>:
  the original parse with every string value normalised. It is the original parse
  itself exactly when that is block-clean.
\<close>

theorem json_yaml_json_amended:
  assumes "json_loads L text = Inr v"
    and "lib_reads_back L ''yaml'' (clean_data_for_yaml v) (clean_data_for_yaml v)"
    and "lib_reads_back L ''json'' (clean_data_for_yaml v) (clean_data_for_yaml v)"
  shows "json_yaml_json L text = Inr (clean_data_for_yaml v)
         \<and> (clean_data_for_yaml v = v \<longleftrightarrow> block_clean v)"
proof
  from assms(2) obtain block where
    b: "yaml_dump L (clean_data_for_yaml v) = Inr block"
       "yaml_safe_load L block = Inr (clean_data_for_yaml v)"
    by (auto simp: lib_reads_back_def split: sum.splits)
  from assms(3) obtain object where
    j: "json_dumps L (clean_data_for_yaml v) 2 = Inr object"
       "json_loads L object = Inr (clean_data_for_yaml v)"
    by (auto simp: lib_reads_back_def split: sum.splits)
  have "load_data L block ''yaml'' = Inr (clean_data_for_yaml v)"
    using b(2) by (simp add: load_data_yaml)
  then have "sub_main L block ''yaml2json'' = Inr object"
    using j(1) by (simp add: sub_main_yaml2json)
  with b(1) j(2) show "json_yaml_json L text = Inr (clean_data_for_yaml v)"
    by (simp add: json_yaml_json_clean [OF assms(1)] load_data_json)
next
  show "clean_data_for_yaml v = v \<longleftrightarrow> block_clean v"
    using block_clean_clean [of v] clean_block_clean [of v] by auto
qed

theorem json_yaml_json_amended_witness:
  "json_yaml_json example_lib ''{\"k\": \"a \"}'' = Inr (PDict [(''k'', PStr ''a'')])"
proof -
  have "json_yaml_json example_lib ''{\"k\": \"a \"}'' = Inr (clean_data_for_yaml padded)"
    using json_yaml_json_amended [OF example_json_loads_padded]
      example_yaml_reads_back example_json_reads_back(1)
    by (simp add: clean_padded)
  then show ?thesis
    by (simp add: clean_padded) (simp add: stripped_def)
qed

section \<open>The safe parse and its fallback\<close>

text \<open>
  Claim C3 says that the extended YAML parse is invoked if and only if the safe parse
  fails. The source catches \<open>yaml.YAMLError\<close> only. On the document \<open>2020-02-30\<close> the
  safe parse fails with a \<open>ValueError\<close> (the text matches the timestamp pattern and is
  no date): the extended parse is not invoked, and the \<open>ValueError\<close> leaves \<open>load_data\<close>.
\<close>

theorem yaml_fallback_counterexample:
  "yaml_safe_load example_lib ''2020-02-30'' = Inl (ValueError ''day is out of range for month'')
   \<and> load_data_traced example_lib ''2020-02-30'' ''yaml''
       = ([YamlSafeLoad], Inl (ValueError ''day is out of range for month''))"
  by (simp add: load_data_traced_def example_lib_unfold)

text \<open>
  Claim C3, amended. For every YAML input text the reader calls the safe parse first;
  it calls the extended parse, after it, if and only if the safe parse raised a
  \<open>yaml.YAMLError\<close>, and then returns what the extended parse returns. When the safe
  parse succeeds, or raises an exception of another class, the extended parse is never
  called and the outcome of the safe parse is the outcome of \<open>load_data\<close>.
\<close>

theorem yaml_fallback_amended:
  "fst (load_data_traced L content ''yaml'') =
     (if raises_YAMLError (yaml_safe_load L content) then [YamlSafeLoad, YamlLoad]
      else [YamlSafeLoad])
   \<and> (YamlLoad \<in> set (fst (load_data_traced L content ''yaml''))
        \<longleftrightarrow> raises_YAMLError (yaml_safe_load L content))
   \<and> load_data L content ''yaml'' =
       (if raises_YAMLError (yaml_safe_load L content) then yaml_load L content
        else yaml_safe_load L content)
   \<and> (\<forall>data. yaml_safe_load L content = Inr data \<longrightarrow>
         load_data_traced L content ''yaml'' = ([YamlSafeLoad], Inr data))"
proof -
  have "\<forall>data. yaml_safe_load L content = Inr data \<longrightarrow>
         load_data_traced L content ''yaml'' = ([YamlSafeLoad], Inr data)"
    by (simp add: load_data_traced_def)
  then show ?thesis
    by (simp add: load_data_yaml load_data_yaml_trace)
qed

theorem yaml_fallback_amended_witness:
  "load_data_traced example_lib ''k: a\<newline>'' ''yaml''
     = ([YamlSafeLoad], Inr (PDict [(''k'', PStr ''a'')]))
   \<and> fst (load_data_traced example_lib ''!!python/tuple [1, 2]'' ''yaml'')
     = [YamlSafeLoad, YamlLoad]
   \<and> load_data example_lib ''!!python/tuple [1, 2]'' ''yaml'' = Inr (PObject ''(1, 2)'')"
proof -
  have s: "yaml_safe_load example_lib ''k: a\<newline>'' = Inr (PDict [(''k'', PStr ''a'')])"
    by (simp add: example_lib_unfold)
  have t: "raises_YAMLError (yaml_safe_load example_lib ''!!python/tuple [1, 2]'')"
    by (simp add: example_lib_unfold)
  have u: "yaml_load example_lib ''!!python/tuple [1, 2]'' = Inr (PObject ''(1, 2)'')"
    by (simp add: example_lib_unfold)
  from yaml_fallback_amended [of example_lib "''k: a\<newline>''"] s
  have "load_data_traced example_lib ''k: a\<newline>'' ''yaml''
     = ([YamlSafeLoad], Inr (PDict [(''k'', PStr ''a'')]))"
    by blast
  moreover from yaml_fallback_amended [of example_lib "''!!python/tuple [1, 2]''"] t u
  have "fst (load_data_traced example_lib ''!!python/tuple [1, 2]'' ''yaml'')
     = [YamlSafeLoad, YamlLoad]
   \<and> load_data example_lib ''!!python/tuple [1, 2]'' ''yaml'' = Inr (PObject ''(1, 2)'')"
    by simp
  ultimately show ?thesis by blast
qed

section \<open>Directives with an empty part\<close>

text \<open>
  Claim C9 says that a directive with exactly one separator and an empty source or
  target is rejected with the unsupported-format error that names the empty part. For
  \<open>csv2\<close> the target is empty, but the source \<open>csv\<close> is checked first and is the part
  the error names.
\<close>

theorem parse_mode_empty_part_counterexample:
  "parse_mode ''csv2''
     = Inl (ValueError ''Unsupported source format: csv. Supported: xml, json, yaml'')
   \<and> parse_mode ''csv2''
     \<noteq> Inl (ValueError ''Unsupported target format: . Supported: xml, json, yaml'')"
  by (simp add: parse_mode_unfold)

text \<open>
  Claim C9, amended. For every directive with exactly one separator and an empty source
  or target, \<open>parse_mode\<close> raises an unsupported-format \<open>ValueError\<close>, never one of the two
  invalid-mode-format errors. Source membership is checked before target membership:
  the error names the source when the source is not a supported format (so it names
  the empty source whenever the source is empty), and names the target, which is then
  the empty part, when the source is supported.
\<close>

theorem parse_mode_empty_part:
  assumes "MODE_SEPARATOR \<notin> set a" and "MODE_SEPARATOR \<notin> set b" and "a = [] \<or> b = []"
  shows "parse_mode (a @ MODE_SEPARATOR # b) =
           Inl (ValueError (if a \<notin> set supported_formats then msg_unsupported_source a
                            else msg_unsupported_target b))
         \<and> parse_mode (a @ MODE_SEPARATOR # b)
             \<noteq> Inl (ValueError (msg_no_separator (a @ MODE_SEPARATOR # b)))
         \<and> parse_mode (a @ MODE_SEPARATOR # b)
             \<noteq> Inl (ValueError (msg_separator_count (a @ MODE_SEPARATOR # b)))
         \<and> (a = [] \<longrightarrow> parse_mode (a @ MODE_SEPARATOR # b)
               = Inl (ValueError (msg_unsupported_source [])))
         \<and> (a \<in> set supported_formats \<longrightarrow> parse_mode (a @ MODE_SEPARATOR # b)
               = Inl (ValueError (msg_unsupported_target [])))"
proof -
  have b: "a \<in> set supported_formats \<Longrightarrow> b \<notin> set supported_formats"
    using assms(3) empty_not_supported by auto
  have c: "a \<in> set supported_formats \<Longrightarrow> b = []"
    using assms(3) empty_not_supported by auto
  have eq: "parse_mode (a @ MODE_SEPARATOR # b) =
           Inl (ValueError (if a \<notin> set supported_formats then msg_unsupported_source a
                            else msg_unsupported_target b))"
    using b by (simp add: parse_mode_one_separator [OF assms(1,2)])
  show ?thesis
    unfolding eq using c by (auto simp: unsupported_msgs_not_invalid empty_not_supported)
qed

theorem parse_mode_empty_part_witness:
  "parse_mode ''2json''
     = Inl (ValueError ''Unsupported source format: . Supported: xml, json, yaml'')
   \<and> parse_mode ''xml2''
     = Inl (ValueError ''Unsupported target format: . Supported: xml, json, yaml'')
   \<and> parse_mode ''2''
     = Inl (ValueError ''Unsupported source format: . Supported: xml, json, yaml'')"
proof -
  have m: "msg_unsupported_source [] = ''Unsupported source format: . Supported: xml, json, yaml''"
    "msg_unsupported_target [] = ''Unsupported target format: . Supported: xml, json, yaml''"
    by (simp_all add: msg_unsupported_source_def msg_unsupported_target_def supported_formats_def)
  have s: "MODE_SEPARATOR \<notin> set ''json''" "MODE_SEPARATOR \<notin> set ''xml''"
    "''xml'' \<in> set supported_formats"
    by (simp_all add: MODE_SEPARATOR_def supported_formats_def)
  have sep: "[MODE_SEPARATOR] = ''2''" by (simp add: MODE_SEPARATOR_def)
  from parse_mode_empty_part [of "[]" "''json''"] s
  have 1: "parse_mode (MODE_SEPARATOR # ''json'') = Inl (ValueError (msg_unsupported_source []))"
    by (simp add: empty_not_supported)
  from parse_mode_empty_part [of "''xml''" "[]"] s
  have 2: "parse_mode (''xml'' @ [MODE_SEPARATOR]) = Inl (ValueError (msg_unsupported_target []))"
    by (simp add: empty_not_supported)
  from parse_mode_empty_part [of "[]" "[]"]
  have 3: "parse_mode [MODE_SEPARATOR] = Inl (ValueError (msg_unsupported_source []))"
    by (simp add: empty_not_supported)
  from 1 2 3 show ?thesis
    by (simp add: m MODE_SEPARATOR_def)
qed

section \<open>Scalar roots\<close>

text \<open>
  Claim C10 says that when the parse of the input yields a scalar root, a conversion
  to the object-notation or the block format succeeds. The YAML document
  \<open>2001-12-14\<close> parses to a date, a scalar root, and \<open>json.dumps\<close> raises a \<open>TypeError\<close>
  on a date: the conversion \<open>yaml2json\<close> fails.
\<close>

theorem scalar_root_counterexample:
  "load_data example_lib ''2001-12-14'' ''yaml'' = Inr (PObject ''datetime.date(2001, 12, 14)'')
   \<and> is_scalar (PObject ''datetime.date(2001, 12, 14)'')
   \<and> sub_main example_lib ''2001-12-14'' ''yaml2json''
       = Inl (OtherError ''TypeError'' ''Object of type date is not JSON serializable'')"
proof -
  have l: "load_data example_lib ''2001-12-14'' ''yaml''
      = Inr (PObject ''datetime.date(2001, 12, 14)'')"
    by (simp add: load_data_yaml example_lib_unfold)
  have d: "json_dumps example_lib (PObject ''datetime.date(2001, 12, 14)'') 2
      = Inl (OtherError ''TypeError'' ''Object of type date is not JSON serializable'')"
    by (simp add: example_lib_unfold)
  from l d show ?thesis by (simp add: sub_main_yaml2json)
qed

text \<open>
  Claim C10, amended. When the parse of the input yields a scalar root, a conversion
  to the object-notation or the block format ends exactly as the serializer of the
  library does on that scalar: with its text when the serializer accepts the scalar,
  with its exception when it does not. The converter checks nothing about the shape of
  the root on the way. The object-notation writer is handed the scalar itself; the
  block writer is handed the scalar after the pre-pass, which is again a scalar and is
  the same scalar unless it is a string.
\<close>

theorem scalar_root_is_serialized:
  assumes "load_data L content from_fmt = Inr v" and "is_scalar v"
    and "to_fmt = ''json'' \<or> to_fmt = ''yaml''" and "from_fmt \<noteq> to_fmt"
  shows "sub_main L content (from_fmt @ MODE_SEPARATOR # to_fmt) =
           (if to_fmt = ''json'' then json_dumps L v 2
            else yaml_dump L (clean_data_for_yaml v))
         \<and> (\<forall>out. (if to_fmt = ''json'' then json_dumps L v 2
                     else yaml_dump L (clean_data_for_yaml v)) = Inr out \<longrightarrow>
               sub_main L content (from_fmt @ MODE_SEPARATOR # to_fmt) = Inr out)
         \<and> (\<forall>e. (if to_fmt = ''json'' then json_dumps L v 2
                   else yaml_dump L (clean_data_for_yaml v)) = Inl e \<longrightarrow>
               sub_main L content (from_fmt @ MODE_SEPARATOR # to_fmt) = Inl e)
         \<and> is_scalar (clean_data_for_yaml v)
         \<and> (\<not> is_str v \<longrightarrow> clean_data_for_yaml v = v)"
proof -
  have f: "from_fmt \<in> set supported_formats"
    using assms(1) by (rule load_data_Inr_supported)
  have t: "to_fmt \<in> set supported_formats"
    using assms(3) by (auto simp: supported_formats_def)
  have "sub_main L content (from_fmt @ MODE_SEPARATOR # to_fmt) = convert_data L v to_fmt"
    by (simp add: sub_main_supported [OF f t assms(4)] assms(1))
  also have "\<dots> = (if to_fmt = ''json'' then json_dumps L v 2
            else yaml_dump L (clean_data_for_yaml v))"
    using assms(3) by (auto simp: convert_data_json convert_data_yaml)
  finally have eq: "sub_main L content (from_fmt @ MODE_SEPARATOR # to_fmt) =
           (if to_fmt = ''json'' then json_dumps L v 2
            else yaml_dump L (clean_data_for_yaml v))" .
  show ?thesis
    unfolding eq using clean_scalar [OF assms(2)] by simp
qed

theorem scalar_root_is_serialized_witness:
  "sub_main example_lib [] ''yaml2json'' = Inr ''null''
   \<and> sub_main example_lib ''42'' ''json2yaml'' = Inr ''42\<newline>...\<newline>''
   \<and> sub_main example_lib ''2001-12-14'' ''yaml2json''
       = Inl (OtherError ''TypeError'' ''Object of type date is not JSON serializable'')"
proof -
  have a: "load_data example_lib [] ''yaml'' = Inr PNone"
    by (simp add: load_data_yaml example_lib_unfold)
  have b: "load_data example_lib ''42'' ''json'' = Inr (PInt 42)"
    by (simp add: load_data_json example_lib_unfold)
  have l: "load_data example_lib ''2001-12-14'' ''yaml''
      = Inr (PObject ''datetime.date(2001, 12, 14)'')"
    by (simp add: load_data_yaml example_lib_unfold)
  have c: "json_dumps example_lib PNone 2 = Inr ''null''"
    "yaml_dump example_lib (PInt 42) = Inr ''42\<newline>...\<newline>''"
    "json_dumps example_lib (PObject ''datetime.date(2001, 12, 14)'') 2
      = Inl (OtherError ''TypeError'' ''Object of type date is not JSON serializable'')"
    by (simp_all add: example_lib_unfold)
  from scalar_root_is_serialized [OF a, of "''json''"]
  have 1: "sub_main example_lib [] (''yaml'' @ MODE_SEPARATOR # ''json'') = Inr ''null''"
    by (simp add: c)
  from scalar_root_is_serialized [OF b, of "''yaml''"]
  have 2: "sub_main example_lib ''42'' (''json'' @ MODE_SEPARATOR # ''yaml'') = Inr ''42\<newline>...\<newline>''"
    by (simp add: c)
  from scalar_root_is_serialized [OF l, of "''json''"]
  have 3: "sub_main example_lib ''2001-12-14'' (''yaml'' @ MODE_SEPARATOR # ''json'')
      = Inl (OtherError ''TypeError'' ''Object of type date is not JSON serializable'')"
    by (simp add: c)
  from 1 2 3 show ?thesis by (simp add: MODE_SEPARATOR_def)
qed

section \<open>The pre-pass is pure and idempotent\<close>

text \<open>
  Claim C6. \<open>clean_data_for_yaml\<close> is idempotent. Its result is block-clean: it has no
  ordered-map node, and every string node in it is normalised. It has the shape of
  its argument, with every ordered map made a plain mapping, and its string nodes are
  those of the argument, in order, each put through \<open>clean_str\<close>.

  \<open>clean_str\<close> strips trailing whitespace from every line, drops the lines left empty
  at the end, and joins the rest again; its result is normalised, and a normalised
  string is returned unchanged. Stripping removes a suffix made of whitespace only and
  leaves no trailing whitespace. So \<open>hello world\<close> is unchanged, and the five lines
  \<open>a\<close>, blank, \<open>b\<close>, empty and blank, the first with a trailing space, become the three
  lines \<open>a\<close>, empty and \<open>b\<close>.

  The pre-pass is pure. Run on a cell \<open>c\<close> in a store \<open>s\<close> where \<open>c\<close> stands for the
  value \<open>v\<close> within depth \<open>d\<close>, it returns; the store after the call extends the store
  before it, so no object that existed has been changed, and \<open>c\<close> still stands for \<open>v\<close>;
  the cell returned stands for \<open>clean_data_for_yaml v\<close>. When \<open>c\<close> refers to a list or
  a dict the result is a reference to a new object; otherwise the store is unchanged,
  and unless \<open>c\<close> is a string the cell returned is \<open>c\<close> itself.
\<close>

theorem clean_data_for_yaml_pure_idempotent:
  "clean_data_for_yaml (clean_data_for_yaml v) = clean_data_for_yaml v
   \<and> block_clean (clean_data_for_yaml v)
   \<and> skeleton (clean_data_for_yaml v) = skeleton v
   \<and> strings_of (clean_data_for_yaml v) = map clean_str (strings_of v)
   \<and> clean_str str = strip_lines_spec str
   \<and> normalised (clean_str str)
   \<and> (normalised str \<longrightarrow> clean_str str = str)
   \<and> (\<exists>w. str = rstrip str @ w \<and> list_all is_space w \<and> no_trailing_space (rstrip str))
   \<and> clean_str ''hello world'' = ''hello world''
   \<and> clean_str ''a \<newline> \<newline>b\<newline>\<newline> \<newline>'' = ''a\<newline>\<newline>b''
   \<and> (denote d s c = Some v \<longrightarrow>
        (\<exists>s' c'. clean_cell d s c = Some (s', c')
           \<and> prefix s s'
           \<and> denote d s' c = Some v
           \<and> denote d s' c' = Some (clean_data_for_yaml v)
           \<and> (refers_to_container s c \<longrightarrow> is_fresh_ref s c')
           \<and> (\<not> refers_to_container s c \<longrightarrow> s' = s)
           \<and> (\<not> refers_to_container s c \<and> \<not> is_string_cell c \<longrightarrow> c' = c)))"
proof -
  have store: "\<exists>s' c'. clean_cell d s c = Some (s', c')
           \<and> prefix s s'
           \<and> denote d s' c = Some v
           \<and> denote d s' c' = Some (clean_data_for_yaml v)
           \<and> (refers_to_container s c \<longrightarrow> is_fresh_ref s c')
           \<and> (\<not> refers_to_container s c \<longrightarrow> s' = s)
           \<and> (\<not> refers_to_container s c \<and> \<not> is_string_cell c \<longrightarrow> c' = c)"
    if dv: "denote d s c = Some v"
  proof -
    from clean_refines(1) dv obtain s' c' where c: "clean_cell d s c = Some (s', c')"
      and d': "denote d s' c' = Some (clean_data_for_yaml v)"
      by blast
    from clean_frame(1) c have p: "prefix s s'" by blast
    with denote_mono(1) dv have "denote d s' c = Some v" by blast
    moreover note clean_cell_result [OF c]
    ultimately show ?thesis using c d' p by blast
  qed
  have strip: "\<exists>w. str = rstrip str @ w \<and> list_all is_space w \<and> no_trailing_space (rstrip str)"
    using rstrip_decompose [of str] no_trailing_space_rstrip [of str] by blast
  have fp: "normalised str \<longrightarrow> clean_str str = str"
    by (simp add: clean_str_normalised)
  note on_values = clean_idem [of v] block_clean_clean [of v] skeleton_clean [of v]
    strings_of_clean [of v]
  note on_strings = clean_str_spec [of str] normalised_clean_str [of str] fp strip
    clean_str_examples(1,2)
  from on_values on_strings store show ?thesis by blast
qed

theorem clean_data_for_yaml_pure_idempotent_witness:
  "clean_cell 3 example_store (CRef 1)
     = Some (example_store @ [OList [CStr ''a'', CInt 1], ODict [(''k'', CRef 2), (''n'', CInt 1)]],
             CRef 3)
   \<and> denote 3 (example_store @ [OList [CStr ''a'', CInt 1], ODict [(''k'', CRef 2), (''n'', CInt 1)]])
        (CRef 1)
     = Some (POrderedDict [(''k'', PList [PStr ''a '', PInt 1]), (''n'', PInt 1)])
   \<and> denote 3 (example_store @ [OList [CStr ''a'', CInt 1], ODict [(''k'', CRef 2), (''n'', CInt 1)]])
        (CRef 3)
     = Some (PDict [(''k'', PList [PStr ''a'', PInt 1]), (''n'', PInt 1)])
   \<and> clean_str ''no change'' = ''no change''"
proof -
  let ?v = "POrderedDict [(''k'', PList [PStr ''a '', PInt 1]), (''n'', PInt 1)]"
  have c: "clean_data_for_yaml ?v = PDict [(''k'', PList [PStr ''a'', PInt 1]), (''n'', PInt 1)]"
    by (simp add: clean_str_def rstrip_def rstrip_newlines_def
        rstrip_with_def is_space_def newline_def)
  have n: "normalised ''no change''"
    by (simp add: normalised_def no_trailing_space_def is_space_def newline_def)
  note t = clean_data_for_yaml_pure_idempotent [of ?v "''no change''" 3 example_store "CRef 1"]
  from t n have 1: "clean_str ''no change'' = ''no change''" by blast
  from t example_store_denotes obtain s' c' where
    "clean_cell 3 example_store (CRef 1) = Some (s', c')"
    "denote 3 s' (CRef 1) = Some ?v" "denote 3 s' c' = Some (clean_data_for_yaml ?v)"
    by blast
  with 1 show ?thesis
    unfolding c example_store_clean by simp
qed

section \<open>Key order\<close>

text \<open>
  Claim C7. The pre-pass keeps the keys of every mapping, at every depth, in their
  order, and both writers hand the mapping to the library in insertion order: the
  object-notation writer with \<open>indent=2\<close> as its only option, the block writer with
  no option at all. The order in which \<open>yaml.dump\<close> then emits the keys is the
  library's default, which the source does not override.
\<close>

theorem yaml_writer_receives_insertion_order:
  "convert_data L (PDict [(''b'', PInt 1), (''a'', PInt 2)]) ''yaml''
     = yaml_dump L (PDict [(''b'', PInt 1), (''a'', PInt 2)])
   \<and> convert_data L (PDict [(''b'', PInt 1), (''a'', PInt 2)]) ''json''
     = json_dumps L (PDict [(''b'', PInt 1), (''a'', PInt 2)]) 2
   \<and> dict_keys (clean_data_for_yaml v) = dict_keys v
   \<and> all_keys (clean_data_for_yaml v) = all_keys v"
  by (simp add: convert_data_yaml convert_data_json dict_keys_clean all_keys_clean)

end
